theory Spec2Isabelle
  imports Main "HOL-Library.Sublist" "HOL-Library.AList"
begin

section \<open>JavaScript strings\<close>

text \<open>
  Strings are lists of characters. The source only splits on single-character separators
  (\<open>'\n'\<close>, \<open>' '\<close>, \<open>'b'\<close>), so \<open>split\<close> takes a character.
\<close>

text \<open>\<open>String.prototype.includes\<close>: the search string occurs as a contiguous run.\<close>

definition str_includes :: "string \<Rightarrow> string \<Rightarrow> bool" where
  "str_includes s search = sublist search s"

text \<open>
  \<open>String.prototype.split\<close> with a one-character separator. The result is never empty:
  \<open>''''.split(c)\<close> is \<open>['''']\<close>.
\<close>

fun split :: "char \<Rightarrow> string \<Rightarrow> string list" where
  "split c [] = [[]]"
| "split c (x # xs) =
     (let rest = split c xs
      in if x = c then [] # rest else (x # hd rest) # tl rest)"

text \<open>\<open>Array.prototype.join\<close>.\<close>

fun join :: "string \<Rightarrow> string list \<Rightarrow> string" where
  "join sep [] = []"
| "join sep [x] = x"
| "join sep (x # y # ys) = x @ sep @ join sep (y # ys)"

text \<open>
  \<open>Array.prototype.shift\<close>, for its effect on the array: the first element is removed,
  and an empty array stays empty.
\<close>

definition shift :: "'a list \<Rightarrow> 'a list" where
  "shift t = (case t of [] \<Rightarrow> [] | _ # r \<Rightarrow> r)"

text \<open>
  The white space and line terminators that \<open>String.prototype.trim\<close> removes, as far as
  they are single characters here: tab, line feed, vertical tab, form feed, carriage
  return, space and the no-break space.
\<close>

definition is_space :: "char \<Rightarrow> bool" where
  "is_space c = (c \<in> set [CHR 0x09, CHR 0x0A, CHR 0x0B, CHR 0x0C, CHR 0x0D, CHR 0x20, CHR 0xA0])"

definition trim :: "string \<Rightarrow> string" where
  "trim s = rev (dropWhile is_space (rev (dropWhile is_space s)))"

text \<open>A template literal prints an absent value as \<open>undefined\<close>.\<close>

definition interpolate :: "string option \<Rightarrow> string" where
  "interpolate v = (case v of None \<Rightarrow> ''undefined'' | Some s \<Rightarrow> s)"

text \<open>\<open>a || b\<close> on a possibly absent string: \<open>undefined\<close> and the empty string are falsy.\<close>

definition or_else :: "string option \<Rightarrow> string \<Rightarrow> string" where
  "or_else a b = (case a of None \<Rightarrow> b | Some s \<Rightarrow> if s = [] then b else s)"

section \<open>The project configuration\<close>

text \<open>
  \<open>config\<close> is imported from the package index, which is not among the sources; the
  fields the sources read are taken as a record.
\<close>

record config =
  config_name :: string
  config_appId :: string
  config_binaryName :: string
  config_updateHostname :: "string option"

section \<open>constants/mozconfig.ts\<close>

definition otherBuildModes :: string where
  "otherBuildModes =
     ''# You can change to other build modes by running:\<newline>'' @
     ''#   $ surfer set buildMode [dev|debug|release]''"

text \<open>
  \<open>getPlatformOptimiseFlags\<close> reads \<open>process.surferPlatform\<close>, which is set elsewhere
  and may be absent; it is the argument here.
\<close>

definition getPlatformOptimiseFlags :: "string option \<Rightarrow> string" where
  "getPlatformOptimiseFlags surferPlatform =
     (if surferPlatform = Some ''linux'' then
        ''ac_add_options --enable-optimize=\"-march=x86-64 -msse3 -mtune=haswell -O3 -w\"''
      else if surferPlatform = Some ''darwin'' then
        ''ac_add_options --enable-optimize=\"-O3 -march=nehalem -mtune=haswell -w\"''
      else if surferPlatform = Some ''win32'' then
        ''ac_add_options --enable-optimize=\"-clang:-march=x86-64 -clang:-msse3 -clang:-mtune=haswell -clang:-O3 -w\"''
      else ''# Unknown platform '' @ interpolate surferPlatform)"

text \<open>The mode-specific block: the \<open>switch\<close> of \<open>internalMozconfg\<close> with its default.\<close>

definition buildOptions :: "string option \<Rightarrow> string \<Rightarrow> string" where
  "buildOptions surferPlatform buildMode =
     (if buildMode = ''dev'' then
        ''# Development build settings\<newline>'' @ otherBuildModes @
        ''\<newline>ac_add_options --disable-debug''
      else if buildMode = ''debug'' then
        ''# Debug build settings\<newline>'' @ otherBuildModes @
        ''\<newline>ac_add_options --enable-debug'' @
        ''\<newline>ac_add_options --disable-optimize''
      else if buildMode = ''release'' then
        ''# Release build settings'' @
        ''\<newline>ac_add_options --disable-debug'' @
        ''\<newline>ac_add_options --enable-optimize'' @
        ''\<newline>ac_add_options --enable-rust-simd\<newline>'' @
        getPlatformOptimiseFlags surferPlatform @ '' # Taken from waterfox''
      else ''# Unknown build mode '' @ buildMode)"

definition internalMozconfg :: "config \<Rightarrow> string option \<Rightarrow> string \<Rightarrow> string \<Rightarrow> string" where
  "internalMozconfg cfg surferPlatform brand buildMode =
     ''\<newline># =====================\<newline>'' @
     ''# Internal surfer config\<newline>'' @
     ''# =====================\<newline>'' @
     ''\<newline>'' @
     buildOptions surferPlatform buildMode @
     ''\<newline>ac_add_options --disable-geckodriver\<newline>'' @
     ''ac_add_options --disable-profiling\<newline>'' @
     ''ac_add_options --disable-tests\<newline>'' @
     ''\<newline>'' @
     ''# Custom branding\<newline>'' @
     ''ac_add_options --with-branding=browser/branding/'' @ brand @
     ''\<newline>\<newline>'' @
     ''# Config for updates\<newline>'' @
     ''ac_add_options --enable-unverified-updates\<newline>'' @
     ''ac_add_options --enable-update-channel='' @ brand @
     ''\<newline>export MOZ_APPUPDATE_HOST='' @
     or_else (config_updateHostname cfg) ''localhost:7648 # This should not resolve'' @
     ''\<newline>''"

section \<open>The world the commands act on\<close>

text \<open>
  A path is the list of its segments below the file-system root; \<open>resolve\<close> and
  \<open>join\<close> of the path module append segments to a base. The segments the sources
  build from a version or an operating-system name are taken as single names.
\<close>

type_synonym path = "string list"

definition resolve :: "path \<Rightarrow> string list \<Rightarrow> path" where
  "resolve base segments = base @ segments"

definition show_path :: "path \<Rightarrow> string" where
  "show_path p = concat (map (\<lambda>s. ''/'' @ s) p)"

datatype node = File string | Dir

type_synonym filesystem = "(path \<times> node) list"

datatype error =
    ENOENT path
  | ENOTDIR path
  | ENOTEMPTY path
  | EISDIR path
  | EEXIST path
  | CommandFailed string
  | DownloadFailed string
  | LoggedError string

datatype event =
    Info string
  | Warning string
  | Error string
  | SpinnerStart
  | SpinnerStop
  | Download string path
  | Spawn string "string list"

text \<open>
  What the sources import and do not define is collected here: the working directory,
  the directories of \<open>../constants\<close>, the binary's name, the configured version and
  project configuration, the outcome of the three external collaborators
  (\<open>downloadFileToLocation\<close> by URL, the \<open>tar\<close> process by its arguments, and
  \<open>git rev-parse HEAD\<close>), and one fact about the logger. The logger \<open>log\<close> is not
  among the sources: \<open>info\<close> and \<open>warning\<close> print a line; whether \<open>error\<close>
  returns to its caller after printing, or raises, is \<open>error_throws\<close>.
\<close>

record env =
  cwd :: path
  ENGINE_DIR :: path
  CONFIGS_DIR :: path
  bin_name :: string
  gFFVersion :: string
  config :: config
  error_throws :: bool
  remote :: "string \<Rightarrow> string option"
  tar :: "string list \<Rightarrow> filesystem \<Rightarrow> filesystem \<times> string list"
  git_rev_parse :: "error + string"

record world =
  fs :: filesystem
  out :: "event list"
  initProgressText :: string

text \<open>A command either raises or returns a value, and leaves a world behind.\<close>

type_synonym 'a action = "world \<Rightarrow> (error + 'a) \<times> world"

definition return :: "'a \<Rightarrow> 'a action" where
  "return x w = (Inr x, w)"

definition throw :: "error \<Rightarrow> 'a action" where
  "throw e w = (Inl e, w)"

definition bind :: "'a action \<Rightarrow> ('a \<Rightarrow> 'b action) \<Rightarrow> 'b action" where
  "bind m f w = (case m w of (Inl e, w') \<Rightarrow> (Inl e, w') | (Inr x, w') \<Rightarrow> f x w')"

definition seq :: "'a action \<Rightarrow> 'b action \<Rightarrow> 'b action" where
  "seq m n = bind m (\<lambda>_. n)"

definition catch :: "'a action \<Rightarrow> (error \<Rightarrow> 'a action) \<Rightarrow> 'a action" where
  "catch m h w = (case m w of (Inl e, w') \<Rightarrow> h e w' | (Inr x, w') \<Rightarrow> (Inr x, w'))"

definition if_then :: "bool \<Rightarrow> unit action \<Rightarrow> unit action" where
  "if_then b m = (if b then m else return ())"

definition emit :: "event \<Rightarrow> unit action" where
  "emit ev w = (Inr (), w\<lparr>out := out w @ [ev]\<rparr>)"

subsection \<open>The logger\<close>

definition log_info :: "string \<Rightarrow> unit action" where
  "log_info msg = emit (Info msg)"

definition log_warning :: "string \<Rightarrow> unit action" where
  "log_warning msg = emit (Warning msg)"

text \<open>
  Modelled from the spec: \<open>log.error\<close> (the logger \<open>log\<close> is imported from the package
  index, which is not among the sources). The specification has the conflicts it reports
  fatal: the check for an existing workspace fails before the download, and a fatal error
  stops the stage it occurs in (sections 4.4 and 7); its design notes leave open whether
  the source terminates right after logging. So \<open>error\<close> prints its message, and that it
  then raises is the parameter \<open>error_throws\<close>; what follows when it returns is proved
  as well.
\<close>

definition log_error :: "env \<Rightarrow> string \<Rightarrow> unit action" where
  "log_error e msg =
     seq (emit (Error msg)) (if error_throws e then throw (LoggedError msg) else return ())"

subsection \<open>The file system calls of \<open>fs\<close> and \<open>fs-extra\<close>\<close>

definition existsSync :: "path \<Rightarrow> bool action" where
  "existsSync p w = (Inr (map_of (fs w) p \<noteq> None), w)"

text \<open>An entry lies below \<open>p\<close> when \<open>p\<close> is a proper prefix of its path.\<close>

definition has_entries :: "filesystem \<Rightarrow> path \<Rightarrow> bool" where
  "has_entries f p = list_ex (\<lambda>(q, n). strict_prefix p q) f"

text \<open>
  \<open>rmdirSync(p)\<close> without the recursive option is rmdir(2): it removes an empty
  directory and raises on a missing path, on a file and on a directory with entries.
\<close>

definition rmdirSync :: "path \<Rightarrow> unit action" where
  "rmdirSync p w =
     (case map_of (fs w) p of
        None \<Rightarrow> (Inl (ENOENT p), w)
      | Some (File c) \<Rightarrow> (Inl (ENOTDIR p), w)
      | Some Dir \<Rightarrow>
          if has_entries (fs w) p then (Inl (ENOTEMPTY p), w)
          else (Inr (), w\<lparr>fs := AList.delete p (fs w)\<rparr>))"

text \<open>
  \<open>ensureDirSync(p)\<close> creates the directory and the ancestors that are missing, leaves
  an existing directory as it is, and raises when a file is in the way.
\<close>

fun mkdirs :: "path list \<Rightarrow> filesystem \<Rightarrow> error + filesystem" where
  "mkdirs [] f = Inr f"
| "mkdirs (q # qs) f =
     (case map_of f q of
        None \<Rightarrow> mkdirs qs (f @ [(q, Dir)])
      | Some Dir \<Rightarrow> mkdirs qs f
      | Some (File c) \<Rightarrow> Inl (EEXIST q))"

definition ensureDirSync :: "path \<Rightarrow> unit action" where
  "ensureDirSync p w =
     (case mkdirs (tl (prefixes p)) (fs w) of
        Inl e \<Rightarrow> (Inl e, w)
      | Inr f \<Rightarrow> (Inr (), w\<lparr>fs := f\<rparr>))"

definition readFileSync :: "path \<Rightarrow> string action" where
  "readFileSync p w =
     (case map_of (fs w) p of
        None \<Rightarrow> (Inl (ENOENT p), w)
      | Some Dir \<Rightarrow> (Inl (EISDIR p), w)
      | Some (File c) \<Rightarrow> (Inr c, w))"

text \<open>
  \<open>writeFileSync(p, data)\<close> creates the file or replaces its content; it raises when
  the parent directory is missing and when \<open>p\<close> is a directory.
\<close>

definition writeFileSync :: "path \<Rightarrow> string \<Rightarrow> unit action" where
  "writeFileSync p content w =
     (if butlast p \<noteq> [] \<and> map_of (fs w) (butlast p) \<noteq> Some Dir then (Inl (ENOENT p), w)
      else if map_of (fs w) p = Some Dir then (Inl (EISDIR p), w)
      else (Inr (), w\<lparr>fs := AList.update p (File content) (fs w)\<rparr>))"

text \<open>
  \<open>downloadFileToLocation(url, dest)\<close> of \<open>../utils/download\<close>: the request is
  recorded; the body the remote side serves is written to \<open>dest\<close>, and a failed
  request raises.
\<close>

definition downloadFileToLocation :: "env \<Rightarrow> string \<Rightarrow> path \<Rightarrow> unit action" where
  "downloadFileToLocation e url dest =
     seq (emit (Download url dest))
       (case remote e url of
          None \<Rightarrow> throw (DownloadFailed url)
        | Some body \<Rightarrow> writeFileSync dest body)"

section \<open>commands/download.ts\<close>

text \<open>The body of the \<open>forEach\<close> in \<open>onData\<close>, on the progress text.\<close>

definition onLine :: "string \<Rightarrow> string \<Rightarrow> string" where
  "onLine line current =
     (if length (trim line) \<noteq> 0 then join '' '' (shift (split CHR '' '' line)) else current)"

definition onData :: "string \<Rightarrow> world \<Rightarrow> world" where
  "onData d w = w\<lparr>initProgressText := fold onLine (split CHR ''\<newline>'' d) (initProgressText w)\<rparr>"

text \<open>
  \<open>unpackFirefoxSource\<close> up to the point where it starts \<open>tar\<close>. On win32 the source
  replaces the working directory by \<open>./\<close>, which \<open>resolve\<close> reads as the working
  directory again.
\<close>

definition unpack_prepare :: "env \<Rightarrow> unit action" where
  "unpack_prepare e =
     seq (emit SpinnerStart)
    (seq (\<lambda>w. (Inr (), w\<lparr>initProgressText := ''Unpacking Firefox...''\<rparr>))
    (seq (catch (rmdirSync (ENGINE_DIR e)) (\<lambda>_. return ()))
         (ensureDirSync (ENGINE_DIR e))))"

definition tar_args :: "env \<Rightarrow> string \<Rightarrow> string list" where
  "tar_args e name =
     [''--transform'', ''s,firefox-'' @ gFFVersion e @ '',engine,'', ''--show-transformed'',
      ''-xf'', show_path (resolve (cwd e) [''.dotbuild'', ''engines'', name])]"

text \<open>
  The \<open>tar\<close> process: it is started, each chunk of its output goes through \<open>onData\<close>,
  and at its exit the progress text is cleared and the spinner stopped.
\<close>

definition run_tar :: "env \<Rightarrow> string \<Rightarrow> unit action" where
  "run_tar e name w =
     (let w1 = w\<lparr>out := out w @ [Spawn ''tar'' (tar_args e name)]\<rparr>;
          (f, chunks) = tar e (tar_args e name) (fs w1);
          w2 = fold onData chunks (w1\<lparr>fs := f\<rparr>)
      in (Inr (), w2\<lparr>initProgressText := [], out := out w2 @ [SpinnerStop]\<rparr>))"

definition unpackFirefoxSource :: "env \<Rightarrow> string \<Rightarrow> unit action" where
  "unpackFirefoxSource e name = seq (unpack_prepare e) (run_tar e name)"

definition source_url :: "string \<Rightarrow> string" where
  "source_url version =
     (let base = ''https://archive.mozilla.org/pub/firefox/releases/'' @ version @ ''/source/'';
          filename = ''firefox-'' @ version @ ''.source.tar.xz''
      in base @ filename)"

definition downloadFirefoxSource :: "env \<Rightarrow> string \<Rightarrow> string action" where
  "downloadFirefoxSource e version =
     (let filename = ''firefox-'' @ version @ ''.source.tar.xz'';
          url = source_url version;
          release = hd (split CHR ''b'' version)
      in
       seq (log_info (''Locating Firefox release '' @ version @ ''...''))
      (seq (ensureDirSync (resolve (cwd e) [''.dotbuild'', ''engines'']))
      (seq (bind (existsSync (resolve (cwd e) [''.dotbuild'', ''engines'', ''firefox-'' @ release]))
             (\<lambda>present. if_then present
                (log_error e (''Cannot download version '' @ release @
                   '' as it already exists at \"'' @
                   show_path (resolve (cwd e) [''firefox-'' @ release]) @ ''\"''))))
      (seq (if_then (str_includes version ''b'')
             (log_warning ''Version includes non-numeric characters. This is probably a beta.''))
      (seq (bind (existsSync (ENGINE_DIR e))
             (\<lambda>present. if_then present
                (log_error e (''Workspace already exists.\<newline>Remove that workspace and run |'' @
                   bin_name e @ '' download '' @ version @ ''| again.''))))
      (seq (log_info (''Downloading Firefox release '' @ version @ ''...''))
      (seq (downloadFileToLocation e url
             (resolve (cwd e) [''.dotbuild'', ''engines'', filename]))
           (return filename))))))))"

section \<open>The template renderer\<close>

text \<open>
  \<open>known_key variables key s\<close> reads on in \<open>s\<close>, behind a \<open>{{\<close> and the characters
  \<open>key\<close> already read: at each \<open>}}\<close> the characters read so far are a candidate for
  the key, and the first candidate that the mapping knows decides. The result is its value
  and the text behind its placeholder.
\<close>

fun known_key :: "(string \<rightharpoonup> string) \<Rightarrow> string \<Rightarrow> string \<Rightarrow> (string \<times> string) option" where
  "known_key variables key (c # d # r) =
     (case variables key of
        Some v \<Rightarrow>
          if c = CHR ''}'' \<and> d = CHR ''}'' then Some (v, r)
          else known_key variables (key @ [c]) (d # r)
      | None \<Rightarrow> known_key variables (key @ [c]) (d # r))"
| "known_key variables key s = None"

lemma known_key_shorter:
  "known_key variables key s = Some (v, rest) \<Longrightarrow> length rest < length s"
proof (induction variables key s rule: known_key.induct)
  case (1 variables key c d r)
  then show ?case by (fastforce split: option.splits if_splits)
qed simp_all

text \<open>
  Modelled from the spec: \<open>stringTemplate\<close> is imported from \<open>../utils\<close>, which is not
  among the sources. The specification gives its contract: a placeholder has the form
  \<open>{{key}}\<close>; every occurrence of a known key's placeholder is replaced by the key's
  value; a placeholder whose key is absent from the mapping is left unchanged; a
  substituted value is never scanned again; the renderer is a total, pure function.
  The model is one scan from left to right: where the text starts with the placeholder
  of a known key (the shortest such key), the key's value is put out and the scan goes on
  behind the placeholder; anywhere else one character is copied.
\<close>

function stringTemplate :: "string \<Rightarrow> (string \<rightharpoonup> string) \<Rightarrow> string" where
  "stringTemplate [] variables = []"
| "stringTemplate (c # cs) variables =
     (if prefix ''{{'' (c # cs) then
        (case known_key variables [] (drop 2 (c # cs)) of
           None \<Rightarrow> c # stringTemplate cs variables
         | Some (v, rest) \<Rightarrow> v @ stringTemplate rest variables)
      else c # stringTemplate cs variables)"
  by pat_completeness auto
termination
proof (relation "measure (\<lambda>(t, variables). length t)")
  show "wf (measure (\<lambda>(t, variables). length t))" by simp
next
  fix c cs variables x2 x y
  assume "known_key variables [] (drop 2 (c # cs)) = Some x2" and "(x, y) = x2"
  then have "length y < length (drop 2 (c # cs))"
    using known_key_shorter [of variables "[]" "drop 2 (c # cs)" x y] by simp
  then show "((y, variables), c # cs, variables) \<in> measure (\<lambda>(t, variables). length t)"
    by simp
qed simp_all

section \<open>commands/build.ts\<close>

text \<open>\<open>s.replace(/pat/, rep)\<close> for a pattern without special characters: the first match.\<close>

fun replace_first :: "string \<Rightarrow> string \<Rightarrow> string \<Rightarrow> string" where
  "replace_first pat rep [] = (if pat = [] then rep else [])"
| "replace_first pat rep (c # cs) =
     (if prefix pat (c # cs) then rep @ drop (length pat) (c # cs)
      else c # replace_first pat rep cs)"

fun for_each :: "('a \<Rightarrow> unit action) \<Rightarrow> 'a list \<Rightarrow> unit action" where
  "for_each f [] = return ()"
| "for_each f (x # xs) = seq (f x) (for_each f xs)"

definition execa_git :: "env \<Rightarrow> string action" where
  "execa_git e w = (git_rev_parse e, w\<lparr>out := out w @ [Spawn ''git'' [''rev-parse'', ''HEAD'']]\<rparr>)"

definition templateOptions :: "env \<Rightarrow> string \<Rightarrow> string \<Rightarrow> (string \<rightharpoonup> string)" where
  "templateOptions e brandingDir changeset =
     [''name'' \<mapsto> config_name (config e),
      ''vendor'' \<mapsto> config_name (config e),
      ''appId'' \<mapsto> config_appId (config e),
      ''brandingDir'' \<mapsto> brandingDir,
      ''binName'' \<mapsto> config_binaryName (config e),
      ''changeset'' \<mapsto> changeset]"

definition mergedConfig :: "string \<Rightarrow> string \<Rightarrow> string \<Rightarrow> string \<Rightarrow> string" where
  "mergedConfig commonConfig osConfig customConfig internalConfig =
     ''# This file is automatically generated. You should only modify this if you know what you are doing!\<newline>\<newline>'' @
     commonConfig @ ''\<newline>\<newline>'' @ osConfig @ ''\<newline>\<newline>'' @ customConfig @
     ''\<newline>\<newline>'' @ internalConfig"

definition echo_option :: "string \<Rightarrow> unit action" where
  "echo_option ln =
     if_then (prefix ''mk'' ln \<or> prefix ''ac'' ln \<or> prefix ''export'' ln)
       (log_info ([CHR 0x09] @
          replace_first ''export '' []
            (replace_first ''ac_add_options '' []
               (replace_first ''mk_add_options '' [] ln))))"

definition applyConfig :: "env \<Rightarrow> string \<Rightarrow> string \<Rightarrow> unit action" where
  "applyConfig e os arch =
     seq (log_info ''Applying mozconfig...'')
    (bind (catch (bind (execa_git e) (\<lambda>stdout. return (trim stdout)))
             (\<lambda>err.
                seq (log_warning ''Melon expects that you are building your browser with git as your version control'')
               (seq (log_warning ''If you are using some other version control system, please migrate to git'')
               (seq (log_warning ''Otherwise, you can setup git in this folder by running:'')
               (seq (log_warning ''   |git init|'')
                    (throw err))))))
    (\<lambda>changeset.
     bind (existsSync (resolve (ENGINE_DIR e) [''branding'', ''melon'']))
    (\<lambda>melon.
     let options = templateOptions e
           (if melon then ''branding/melon'' else ''branding/unofficial'') changeset in
     bind (readFileSync (resolve (CONFIGS_DIR e) [''common'', ''mozconfig'']))
    (\<lambda>common.
     bind (readFileSync (resolve (CONFIGS_DIR e)
             [os, if arch = ''i686'' then ''mozconfig-i686'' else ''mozconfig'']))
    (\<lambda>specific.
     bind (existsSync (resolve (cwd e) [''mozconfig'']))
    (\<lambda>custom_present.
     bind (if custom_present then readFileSync (resolve (cwd e) [''mozconfig'']) else return [])
    (\<lambda>custom.
     let merged = mergedConfig (stringTemplate common options) (stringTemplate specific options)
           (stringTemplate custom options) ''# Internally defined by melon'' in
     seq (writeFileSync (resolve (ENGINE_DIR e) [''mozconfig'']) merged)
    (seq (log_info (''Config for this `'' @ os @ ''` build:''))
         (for_each echo_option (split CHR ''\<newline>'' merged))))))))))"

section \<open>Example inputs\<close>

definition example_config :: config where
  "example_config =
     \<lparr>config_name = ''Dot Browser'', config_appId = ''co.dothq.browser'',
      config_binaryName = ''dot'', config_updateHostname = None\<rparr>"

text \<open>
  A project at \<open>/home/dev/browser\<close>. The logger's \<open>error\<close> returns here; the remote
  side serves every URL; \<open>tar\<close> adds the unpacked \<open>mach\<close> script and prints two lines.
\<close>

definition example_env :: env where
  "example_env =
     \<lparr>cwd = [''home'', ''dev'', ''browser''],
      ENGINE_DIR = [''home'', ''dev'', ''browser'', ''engine''],
      CONFIGS_DIR = [''home'', ''dev'', ''browser'', ''configs''],
      bin_name = ''melon'',
      gFFVersion = ''115.0'',
      config = example_config,
      error_throws = False,
      remote = (\<lambda>url. Some ''archive''),
      tar = (\<lambda>args f.
        (f @ [([''home'', ''dev'', ''browser'', ''engine'', ''mach''], File ''#!/bin/sh'')],
         [''x engine/\<newline>x engine/mach\<newline>''])),
      git_rev_parse = Inr ''0a1b2c3d\<newline>''\<rparr>"

definition project_dirs :: filesystem where
  "project_dirs =
     [([''home''], Dir), ([''home'', ''dev''], Dir), ([''home'', ''dev'', ''browser''], Dir)]"

definition fresh_world :: world where
  "fresh_world = \<lparr>fs = project_dirs, out = [], initProgressText = ''Initialising...''\<rparr>"

text \<open>The same project after an earlier download of version 115.0.\<close>

definition stale_world :: world where
  "stale_world = fresh_world\<lparr>fs := project_dirs @
     [([''home'', ''dev'', ''browser'', ''.dotbuild''], Dir),
      ([''home'', ''dev'', ''browser'', ''.dotbuild'', ''engines''], Dir),
      ([''home'', ''dev'', ''browser'', ''.dotbuild'', ''engines'', ''firefox-115.0''], Dir)]\<rparr>"

text \<open>The same project with an engine directory that holds a file.\<close>

definition used_world :: world where
  "used_world = fresh_world\<lparr>fs := project_dirs @
     [([''home'', ''dev'', ''browser'', ''engine''], Dir),
      ([''home'', ''dev'', ''browser'', ''engine'', ''old.txt''], File ''stale'')]\<rparr>"

text \<open>A logger whose \<open>error\<close> raises.\<close>

definition strict_env :: env where
  "strict_env = example_env\<lparr>error_throws := True\<rparr>"

text \<open>The same project when \<open>git\<close> fails.\<close>

definition failing_env :: env where
  "failing_env = example_env\<lparr>git_rev_parse := Inl (CommandFailed ''git rev-parse HEAD'')\<rparr>"

text \<open>The same project with its configuration fragments and the file of an earlier build.\<close>

definition configured_world :: world where
  "configured_world = fresh_world\<lparr>fs := project_dirs @
     [([''home'', ''dev'', ''browser'', ''engine''], Dir),
      ([''home'', ''dev'', ''browser'', ''engine'', ''mozconfig''], File ''# left by the last build''),
      ([''home'', ''dev'', ''browser'', ''configs''], Dir),
      ([''home'', ''dev'', ''browser'', ''configs'', ''common''], Dir),
      ([''home'', ''dev'', ''browser'', ''configs'', ''common'', ''mozconfig''],
       File ''ac_add_options --with-app-name={{binName}}''),
      ([''home'', ''dev'', ''browser'', ''configs'', ''linux''], Dir),
      ([''home'', ''dev'', ''browser'', ''configs'', ''linux'', ''mozconfig''],
       File ''export MOZ_SOURCE_CHANGESET={{changeset}}'')]\<rparr>"

section \<open>Observations\<close>

text \<open>The text of the file at a path; empty where there is no file.\<close>

definition content :: "filesystem \<Rightarrow> path \<Rightarrow> string" where
  "content f p = (case map_of f p of Some (File c) \<Rightarrow> c | _ \<Rightarrow> [])"

text \<open>The warnings among the events, in order.\<close>

fun warnings :: "event list \<Rightarrow> string list" where
  "warnings [] = []"
| "warnings (Warning msg # evs) = msg # warnings evs"
| "warnings (ev # evs) = warnings evs"

text \<open>
  A line that sets a debug or an optimize flag: an \<open>ac_add_options\<close> line for
  \<open>--enable-debug\<close>, \<open>--disable-debug\<close>, \<open>--enable-optimize\<close> (with or without a
  value) or \<open>--disable-optimize\<close>.
\<close>

definition debug_or_optimize_flag :: "string \<Rightarrow> bool" where
  "debug_or_optimize_flag ln =
     (prefix ''ac_add_options --enable-debug'' ln \<or>
      prefix ''ac_add_options --disable-debug'' ln \<or>
      prefix ''ac_add_options --enable-optimize'' ln \<or>
      prefix ''ac_add_options --disable-optimize'' ln)"

section \<open>Facts about strings\<close>

lemma str_includes_middle: "str_includes (ps @ s @ ss) s"
  by (simp add: str_includes_def)

lemma split_not_Nil: "split c s \<noteq> []"
  by (induction s) (simp_all add: Let_def)


lemma split_append_sep: "c \<notin> set xs \<Longrightarrow> split c (xs @ c # ys) = xs # split c ys"
  by (induction xs) (auto simp: Let_def)

lemma join_Cons: "ys \<noteq> [] \<Longrightarrow> join sep (x # ys) = x @ sep @ join sep ys"
  by (cases ys) simp_all


lemma line_of_split_append:
  "c \<notin> set l \<Longrightarrow> l \<in> set (tl (split c (pre @ c # l @ c # post)))"
proof (induction pre)
  case Nil
  then show ?case by (simp add: split_append_sep)
next
  case (Cons x pre)
  then have inner: "l \<in> set (tl (split c (pre @ c # l @ c # post)))" by simp
  then have "l \<in> set (split c (pre @ c # l @ c # post))"
    by (rule list.set_sel(2) [rotated]) (rule split_not_Nil)
  with inner show ?case by (simp add: Let_def)
qed

lemma flag_line_of_output:
  assumes "c \<notin> set l" and "str_includes s (c # l @ [c])" and "P l"
  shows "list_ex P (split c s)"
proof -
  from assms(2) obtain pre post where "s = pre @ (c # l @ [c]) @ post"
    by (auto simp: str_includes_def sublist_def)
  then have "s = pre @ c # l @ c # post" by simp
  with line_of_split_append [OF assms(1)] have "l \<in> set (tl (split c s))" by simp
  then have "l \<in> set (split c s)"
    by (rule list.set_sel(2) [rotated]) (rule split_not_Nil)
  with assms(3) show ?thesis by (auto simp: list_ex_iff)
qed

section \<open>The internal configuration fragment\<close>




text \<open>The flag lines the known modes add are seen by the same test.\<close>

lemma known_modes_have_flags:
  "list_ex debug_or_optimize_flag
     (split CHR ''\<newline>'' (internalMozconfg example_config (Some ''linux'') ''dot'' ''dev'')) \<and>
   list_ex debug_or_optimize_flag
     (split CHR ''\<newline>'' (internalMozconfg example_config (Some ''linux'') ''dot'' ''debug'')) \<and>
   list_ex debug_or_optimize_flag
     (split CHR ''\<newline>'' (internalMozconfg example_config (Some ''linux'') ''dot'' ''release''))"
proof (intro conjI)
  show "list_ex debug_or_optimize_flag
     (split CHR ''\<newline>'' (internalMozconfg example_config (Some ''linux'') ''dot'' ''dev''))"
    by (rule flag_line_of_output [where l = "''ac_add_options --disable-debug''"])
       (simp_all add: internalMozconfg_def buildOptions_def otherBuildModes_def example_config_def
          or_else_def debug_or_optimize_flag_def str_includes_def sublist_Cons_right)
  show "list_ex debug_or_optimize_flag
     (split CHR ''\<newline>'' (internalMozconfg example_config (Some ''linux'') ''dot'' ''debug''))"
    by (rule flag_line_of_output [where l = "''ac_add_options --enable-debug''"])
       (simp_all add: internalMozconfg_def buildOptions_def otherBuildModes_def example_config_def
          or_else_def debug_or_optimize_flag_def str_includes_def sublist_Cons_right)
  show "list_ex debug_or_optimize_flag
     (split CHR ''\<newline>'' (internalMozconfg example_config (Some ''linux'') ''dot'' ''release''))"
    by (rule flag_line_of_output [where l = "''ac_add_options --enable-optimize''"])
       (simp_all add: internalMozconfg_def buildOptions_def getPlatformOptimiseFlags_def
          example_config_def or_else_def debug_or_optimize_flag_def str_includes_def
          sublist_Cons_right)
qed


text \<open>
  C10. Whatever the brand and the build mode, the fragment has the line that selects the
  branding directory of the brand and the line that sets the update channel to the same
  brand.
\<close>

theorem internalMozconfg_brand_is_update_channel:
  "str_includes (internalMozconfg cfg surferPlatform brand buildMode)
     (''\<newline>ac_add_options --with-branding=browser/branding/'' @ brand @ ''\<newline>'') \<and>
   str_includes (internalMozconfg cfg surferPlatform brand buildMode)
     (''\<newline>ac_add_options --enable-update-channel='' @ brand @ ''\<newline>'')"
proof
  have "internalMozconfg cfg surferPlatform brand buildMode =
      (''\<newline># =====================\<newline># Internal surfer config\<newline># =====================\<newline>\<newline>'' @
       buildOptions surferPlatform buildMode @
       ''\<newline>ac_add_options --disable-geckodriver\<newline>ac_add_options --disable-profiling\<newline>ac_add_options --disable-tests\<newline>\<newline># Custom branding'') @
      (''\<newline>ac_add_options --with-branding=browser/branding/'' @ brand @ ''\<newline>'') @
      (''\<newline># Config for updates\<newline>ac_add_options --enable-unverified-updates\<newline>ac_add_options --enable-update-channel='' @
       brand @ ''\<newline>export MOZ_APPUPDATE_HOST='' @
       or_else (config_updateHostname cfg) ''localhost:7648 # This should not resolve'' @
       ''\<newline>'')"
    by (simp add: internalMozconfg_def)
  then show "str_includes (internalMozconfg cfg surferPlatform brand buildMode)
     (''\<newline>ac_add_options --with-branding=browser/branding/'' @ brand @ ''\<newline>'')"
    using str_includes_middle by metis
next
  have "internalMozconfg cfg surferPlatform brand buildMode =
      (''\<newline># =====================\<newline># Internal surfer config\<newline># =====================\<newline>\<newline>'' @
       buildOptions surferPlatform buildMode @
       ''\<newline>ac_add_options --disable-geckodriver\<newline>ac_add_options --disable-profiling\<newline>ac_add_options --disable-tests\<newline>\<newline># Custom branding\<newline>ac_add_options --with-branding=browser/branding/'' @
       brand @ ''\<newline>\<newline># Config for updates\<newline>ac_add_options --enable-unverified-updates'') @
      (''\<newline>ac_add_options --enable-update-channel='' @ brand @ ''\<newline>'') @
      (''export MOZ_APPUPDATE_HOST='' @
       or_else (config_updateHostname cfg) ''localhost:7648 # This should not resolve'' @
       ''\<newline>'')"
    by (simp add: internalMozconfg_def)
  then show "str_includes (internalMozconfg cfg surferPlatform brand buildMode)
     (''\<newline>ac_add_options --enable-update-channel='' @ brand @ ''\<newline>'')"
    using str_includes_middle by metis
qed

section \<open>The progress text\<close>

lemma join_split: "join [c] (split c s) = s"
proof (induction s)
  case Nil
  show ?case by simp
next
  case (Cons x xs)
  have "join [c] ((x # hd (split c xs)) # tl (split c xs)) = x # join [c] (split c xs)"
    using split_not_Nil [of c xs] by (cases "split c xs"; cases "tl (split c xs)") auto
  with Cons show ?case
    by (simp add: Let_def join_Cons split_not_Nil)
qed

lemma tl_split:
  "tl (split c s) =
     (if c \<in> set s then split c (drop 1 (dropWhile (\<lambda>x. x \<noteq> c) s)) else [])"
  by (induction s) (auto simp: Let_def)

lemma drop_leading_token:
  "join [c] (shift (split c line)) = drop 1 (dropWhile (\<lambda>x. x \<noteq> c) line)"
proof (cases "c \<in> set line")
  case True
  have "shift (split c line) = tl (split c line)"
    by (cases "split c line") (simp_all add: shift_def)
  with True show ?thesis
    by (simp only: tl_split if_True join_split)
next
  case False
  have "shift (split c line) = tl (split c line)"
    by (cases "split c line") (simp_all add: shift_def)
  moreover from False have none: "dropWhile (\<lambda>x. x \<noteq> c) line = []"
    by auto
  ultimately show ?thesis
    unfolding none using False by (simp add: tl_split)
qed

lemma trim_empty: "length (trim s) = 0 \<longleftrightarrow> list_all is_space s"
proof
  assume "length (trim s) = 0"
  then have all: "\<forall>x \<in> set (dropWhile is_space s). is_space x"
    by (simp add: trim_def)
  have "dropWhile is_space s = []"
  proof (rule ccontr)
    assume ne: "dropWhile is_space s \<noteq> []"
    then have "\<not> is_space (hd (dropWhile is_space s))"
      by (rule hd_dropWhile)
    moreover from ne have "hd (dropWhile is_space s) \<in> set (dropWhile is_space s)"
      by simp
    ultimately show False using all by blast
  qed
  then show "list_all is_space s"
    by (simp add: list_all_iff)
next
  assume "list_all is_space s"
  then have blank: "dropWhile is_space s = []"
    by (simp add: list_all_iff)
  show "length (trim s) = 0"
    unfolding trim_def blank by simp
qed

lemma onLine_eq:
  "onLine line current =
     (if list_all is_space line then current
      else drop 1 (dropWhile (\<lambda>c. c \<noteq> CHR '' '') line))"
  using trim_empty [of line] drop_leading_token [of "CHR '' ''" line]
  by (simp add: onLine_def del: length_0_conv)

lemma fold_onLine:
  "fold onLine ls current =
     (let said = filter (\<lambda>l. \<not> list_all is_space l) ls
      in if said = [] then current else drop 1 (dropWhile (\<lambda>c. c \<noteq> CHR '' '') (last said)))"
  by (induction ls arbitrary: current) (simp_all add: onLine_eq Let_def)

text \<open>
  C7. A line that is not white space only sets the progress text to what follows its
  first blank (the line without its leading blank-delimited token; nothing, if the line
  has no blank); a line of white space only leaves the text as it is. A chunk is handled
  line by line, so after it the text comes from the last line that is not white space
  only, and is unchanged if there is none.
\<close>

theorem onData_progress_text:
  "onLine line current =
     (if list_all is_space line then current
      else drop 1 (dropWhile (\<lambda>c. c \<noteq> CHR '' '') line)) \<and>
   onData d w = w\<lparr>initProgressText := fold onLine (split CHR ''\<newline>'' d) (initProgressText w)\<rparr> \<and>
   onData d w = w\<lparr>initProgressText :=
     (let said = filter (\<lambda>l. \<not> list_all is_space l) (split CHR ''\<newline>'' d)
      in if said = [] then initProgressText w
         else drop 1 (dropWhile (\<lambda>c. c \<noteq> CHR '' '') (last said)))\<rparr>"
  by (simp add: onLine_eq onData_def fold_onLine Let_def)

lemma onData_example:
  "onData ''x engine/a\<newline>  \<newline>x engine/b c\<newline>'' fresh_world =
     fresh_world\<lparr>initProgressText := ''engine/b c''\<rparr>"
  by (simp add: onData_def onLine_def fresh_world_def trim_def is_space_def shift_def)

section \<open>Downloading the source archive\<close>

lemmas action_defs = return_def throw_def bind_def seq_def catch_def if_then_def emit_def
  log_info_def log_warning_def log_error_def existsSync_def

lemma map_of_mkdirs:
  "mkdirs qs f = Inr f' \<Longrightarrow> map_of f q = Some n \<Longrightarrow> map_of f' q = Some n"
proof (induction qs arbitrary: f)
  case Nil
  then show ?case by simp
next
  case (Cons a qs)
  then show ?case
    by (auto split: option.splits node.splits simp: map_add_Some_iff)
qed

text \<open>
  The events of a run of \<open>downloadFirefoxSource\<close> that no raising \<open>log.error\<close>
  stops, once \<open>.dotbuild/engines\<close> is there.
\<close>

lemma download_run:
  assumes dirs: "mkdirs (tl (prefixes (resolve (cwd e) [''.dotbuild'', ''engines'']))) (fs w) = Inr f"
    and clear: "error_throws e \<Longrightarrow>
      map_of f (resolve (cwd e)
        [''.dotbuild'', ''engines'', ''firefox-'' @ hd (split CHR ''b'' version)]) = None \<and>
      map_of f (ENGINE_DIR e) = None"
  shows "out (snd (downloadFirefoxSource e version w)) =
      out w @ [Info (''Locating Firefox release '' @ version @ ''...'')] @
      (if map_of f (resolve (cwd e)
            [''.dotbuild'', ''engines'', ''firefox-'' @ hd (split CHR ''b'' version)]) \<noteq> None
       then [Error (''Cannot download version '' @ hd (split CHR ''b'' version) @
                   '' as it already exists at \"'' @
                   show_path (resolve (cwd e) [''firefox-'' @ hd (split CHR ''b'' version)]) @ ''\"'')]
       else []) @
      (if str_includes version ''b''
       then [Warning ''Version includes non-numeric characters. This is probably a beta.'']
       else []) @
      (if map_of f (ENGINE_DIR e) \<noteq> None
       then [Error (''Workspace already exists.\<newline>Remove that workspace and run |'' @
                   bin_name e @ '' download '' @ version @ ''| again.'')]
       else []) @
      [Info (''Downloading Firefox release '' @ version @ ''...''),
       Download (source_url version)
         (resolve (cwd e) [''.dotbuild'', ''engines'', ''firefox-'' @ version @ ''.source.tar.xz''])]"
proof -
  have tail: "out (snd (case downloadFileToLocation e url dest v of
        (Inl er, v') \<Rightarrow> (Inl er, v') | (Inr x, v') \<Rightarrow> return name v')) =
      out v @ [Download url dest]"
    for url dest v and name :: string
    by (simp add: downloadFileToLocation_def action_defs writeFileSync_def split: option.splits)
  show ?thesis
    using dirs clear
    by (cases "error_throws e")
       (simp_all add: downloadFirefoxSource_def ensureDirSync_def action_defs Let_def tail)
qed


lemma download_run_no_dirs:
  assumes "mkdirs (tl (prefixes (resolve (cwd e) [''.dotbuild'', ''engines'']))) (fs w) = Inl err"
  shows "downloadFirefoxSource e version w =
    (Inl err, w\<lparr>out := out w @ [Info (''Locating Firefox release '' @ version @ ''...'')]\<rparr>)"
  using assms
  by (simp add: downloadFirefoxSource_def ensureDirSync_def action_defs Let_def)

lemma download_run_refused:
  assumes dirs: "mkdirs (tl (prefixes (resolve (cwd e) [''.dotbuild'', ''engines'']))) (fs w) = Inr f"
    and throws: "error_throws e"
    and present: "map_of f (resolve (cwd e)
        [''.dotbuild'', ''engines'', ''firefox-'' @ hd (split CHR ''b'' version)]) \<noteq> None \<or>
      map_of f (ENGINE_DIR e) \<noteq> None"
  shows "\<exists>msg said. downloadFirefoxSource e version w =
      (Inl (LoggedError msg),
       w\<lparr>fs := f, out := out w @ Info (''Locating Firefox release '' @ version @ ''...'') # said\<rparr>) \<and>
      set said \<subseteq> {Error msg,
        Warning ''Version includes non-numeric characters. This is probably a beta.''}"
proof (cases "map_of f (resolve (cwd e)
        [''.dotbuild'', ''engines'', ''firefox-'' @ hd (split CHR ''b'' version)]) \<noteq> None")
  case True
  let ?msg = "''Cannot download version '' @ hd (split CHR ''b'' version) @
                   '' as it already exists at \"'' @
                   show_path (resolve (cwd e) [''firefox-'' @ hd (split CHR ''b'' version)]) @ ''\"''"
  have "downloadFirefoxSource e version w =
      (Inl (LoggedError ?msg),
       w\<lparr>fs := f, out := out w @ Info (''Locating Firefox release '' @ version @ ''...'') # [Error ?msg]\<rparr>)"
    using dirs throws True
    by (simp add: downloadFirefoxSource_def ensureDirSync_def action_defs Let_def)
  moreover have "set [Error ?msg] \<subseteq> {Error ?msg,
        Warning ''Version includes non-numeric characters. This is probably a beta.''}"
    by simp
  ultimately show ?thesis by blast
next
  case False
  let ?msg = "''Workspace already exists.\<newline>Remove that workspace and run |'' @
                   bin_name e @ '' download '' @ version @ ''| again.''"
  let ?said = "(if str_includes version ''b''
       then [Warning ''Version includes non-numeric characters. This is probably a beta.'']
       else []) @ [Error ?msg]"
  have "downloadFirefoxSource e version w =
      (Inl (LoggedError ?msg),
       w\<lparr>fs := f, out := out w @ Info (''Locating Firefox release '' @ version @ ''...'') # ?said\<rparr>)"
    using dirs throws present False
    by (simp add: downloadFirefoxSource_def ensureDirSync_def action_defs Let_def)
  moreover have "set ?said \<subseteq> {Error ?msg,
        Warning ''Version includes non-numeric characters. This is probably a beta.''}"
    by auto
  ultimately show ?thesis by blast
qed

lemma download_refused_if_error_throws:
  assumes "error_throws e"
    and "mkdirs (tl (prefixes (resolve (cwd e) [''.dotbuild'', ''engines'']))) (fs w) = Inr f"
    and "map_of f (resolve (cwd e)
        [''.dotbuild'', ''engines'', ''firefox-'' @ hd (split CHR ''b'' version)]) \<noteq> None \<or>
      map_of f (ENGINE_DIR e) \<noteq> None"
  shows "(\<exists>msg. fst (downloadFirefoxSource e version w) = Inl (LoggedError msg)) \<and>
    (\<forall>url dest. Download url dest \<notin>
       set (drop (length (out w)) (out (snd (downloadFirefoxSource e version w)))))"
proof -
  from download_run_refused [OF assms(2) assms(1) assms(3)]
  obtain msg said where run: "downloadFirefoxSource e version w =
      (Inl (LoggedError msg),
       w\<lparr>fs := f, out := out w @ Info (''Locating Firefox release '' @ version @ ''...'') # said\<rparr>)"
    and said: "set said \<subseteq> {Error msg,
        Warning ''Version includes non-numeric characters. This is probably a beta.''}"
    by blast
  show ?thesis unfolding run using said by auto
qed

lemma download_proceeds_if_error_returns:
  assumes "\<not> error_throws e"
    and "mkdirs (tl (prefixes (resolve (cwd e) [''.dotbuild'', ''engines'']))) (fs w) = Inr f"
  shows "Download (source_url version)
        (resolve (cwd e) [''.dotbuild'', ''engines'', ''firefox-'' @ version @ ''.source.tar.xz''])
      \<in> set (drop (length (out w)) (out (snd (downloadFirefoxSource e version w))))"
proof -
  from assms(1) have "error_throws e \<Longrightarrow>
      map_of f (resolve (cwd e)
        [''.dotbuild'', ''engines'', ''firefox-'' @ hd (split CHR ''b'' version)]) = None \<and>
      map_of f (ENGINE_DIR e) = None"
    by simp
  from download_run [OF assms(2) this] show ?thesis by simp
qed





text \<open>
  With a \<open>log.error\<close> that returns, the same run prints the error and goes on: the
  archive is requested and written.
\<close>

lemma download_goes_on_when_error_returns:
  "downloadFirefoxSource example_env ''115.0'' stale_world =
    (Inr ''firefox-115.0.source.tar.xz'',
     stale_world\<lparr>
       fs := fs stale_world @
         [([''home'', ''dev'', ''browser'', ''.dotbuild'', ''engines'', ''firefox-115.0.source.tar.xz''],
           File ''archive'')],
       out :=
         [Info ''Locating Firefox release 115.0...'',
          Error ''Cannot download version 115.0 as it already exists at \"/home/dev/browser/firefox-115.0\"'',
          Info ''Downloading Firefox release 115.0...'',
          Download ''https://archive.mozilla.org/pub/firefox/releases/115.0/source/firefox-115.0.source.tar.xz''
            [''home'', ''dev'', ''browser'', ''.dotbuild'', ''engines'', ''firefox-115.0.source.tar.xz'']]\<rparr>)"
  by (simp add: downloadFirefoxSource_def source_url_def action_defs ensureDirSync_def
      downloadFileToLocation_def writeFileSync_def resolve_def show_path_def
      example_env_def stale_world_def fresh_world_def project_dirs_def str_includes_def
      sublist_Cons_right Let_def)

text \<open>
  C8. For a version with the letter \<open>b\<close> in it, in a run that no raising
  \<open>log.error\<close> stops (the logger's \<open>error\<close> returns, or neither the version's
  directory nor the engine directory is there), the beta advisory is printed as a
  warning and the run goes on to announce and request the archive.
\<close>

theorem beta_advisory_does_not_block:
  assumes beta: "str_includes version ''b''"
    and dirs: "mkdirs (tl (prefixes (resolve (cwd e) [''.dotbuild'', ''engines'']))) (fs w) = Inr f"
    and clear: "error_throws e \<Longrightarrow>
      map_of f (resolve (cwd e)
        [''.dotbuild'', ''engines'', ''firefox-'' @ hd (split CHR ''b'' version)]) = None \<and>
      map_of f (ENGINE_DIR e) = None"
  shows "\<exists>before after.
    out (snd (downloadFirefoxSource e version w)) =
      out w @ before @
      [Warning ''Version includes non-numeric characters. This is probably a beta.''] @ after @
      [Info (''Downloading Firefox release '' @ version @ ''...''),
       Download (source_url version)
         (resolve (cwd e) [''.dotbuild'', ''engines'', ''firefox-'' @ version @ ''.source.tar.xz''])]"
proof -
  let ?before = "[Info (''Locating Firefox release '' @ version @ ''...'')] @
      (if map_of f (resolve (cwd e)
            [''.dotbuild'', ''engines'', ''firefox-'' @ hd (split CHR ''b'' version)]) \<noteq> None
       then [Error (''Cannot download version '' @ hd (split CHR ''b'' version) @
                   '' as it already exists at \"'' @
                   show_path (resolve (cwd e) [''firefox-'' @ hd (split CHR ''b'' version)]) @ ''\"'')]
       else [])"
  let ?after = "if map_of f (ENGINE_DIR e) \<noteq> None
       then [Error (''Workspace already exists.\<newline>Remove that workspace and run |'' @
                   bin_name e @ '' download '' @ version @ ''| again.'')]
       else []"
  have "out (snd (downloadFirefoxSource e version w)) =
      out w @ ?before @
      [Warning ''Version includes non-numeric characters. This is probably a beta.''] @ ?after @
      [Info (''Downloading Firefox release '' @ version @ ''...''),
       Download (source_url version)
         (resolve (cwd e) [''.dotbuild'', ''engines'', ''firefox-'' @ version @ ''.source.tar.xz''])]"
    using beta by (simp add: download_run [OF dirs clear])
  then show ?thesis by blast
qed

theorem beta_advisory_does_not_block_witness:
  "str_includes ''116.0b3'' ''b'' \<and> error_throws strict_env \<and>
   (\<exists>before after.
      out (snd (downloadFirefoxSource strict_env ''116.0b3'' fresh_world)) =
        out fresh_world @ before @
        [Warning ''Version includes non-numeric characters. This is probably a beta.''] @ after @
        [Info ''Downloading Firefox release 116.0b3...'',
         Download ''https://archive.mozilla.org/pub/firefox/releases/116.0b3/source/firefox-116.0b3.source.tar.xz''
           [''home'', ''dev'', ''browser'', ''.dotbuild'', ''engines'', ''firefox-116.0b3.source.tar.xz'']])"
  using beta_advisory_does_not_block
    [of "''116.0b3''" strict_env fresh_world
      "project_dirs @
         [([''home'', ''dev'', ''browser'', ''.dotbuild''], Dir),
          ([''home'', ''dev'', ''browser'', ''.dotbuild'', ''engines''], Dir)]"]
  by (simp add: strict_env_def example_env_def fresh_world_def project_dirs_def resolve_def
      source_url_def str_includes_def sublist_Cons_right)

text \<open>
  C9. The URL is the archive host's release path with the version in both places, and
  it is the URL of every request a run of \<open>downloadFirefoxSource\<close> makes.
\<close>

theorem download_url:
  "source_url version =
     ''https://archive.mozilla.org/pub/firefox/releases/'' @ version @
     ''/source/firefox-'' @ version @ ''.source.tar.xz'' \<and>
   (\<forall>url dest.
      Download url dest \<in> set (drop (length (out w)) (out (snd (downloadFirefoxSource e version w))))
      \<longrightarrow> url = ''https://archive.mozilla.org/pub/firefox/releases/'' @ version @
            ''/source/firefox-'' @ version @ ''.source.tar.xz'')"
proof (intro conjI allI impI)
  show url: "source_url version =
     ''https://archive.mozilla.org/pub/firefox/releases/'' @ version @
     ''/source/firefox-'' @ version @ ''.source.tar.xz''"
    by (simp add: source_url_def)
  fix url dest
  assume sent: "Download url dest \<in>
    set (drop (length (out w)) (out (snd (downloadFirefoxSource e version w))))"
  let ?dirs = "mkdirs (tl (prefixes (resolve (cwd e) [''.dotbuild'', ''engines'']))) (fs w)"
  let ?present = "\<lambda>f. map_of f (resolve (cwd e)
        [''.dotbuild'', ''engines'', ''firefox-'' @ hd (split CHR ''b'' version)]) \<noteq> None \<or>
      map_of f (ENGINE_DIR e) \<noteq> None"
  have "url = source_url version"
  proof (cases ?dirs)
    case (Inl err)
    from sent [unfolded download_run_no_dirs [OF Inl]] show ?thesis
      by simp
  next
    case (Inr f)
    show ?thesis
    proof (cases "error_throws e \<and> ?present f")
      case True
      with download_refused_if_error_throws [of e w f version] Inr sent
      show ?thesis by blast
    next
      case False
      then have clear: "error_throws e \<Longrightarrow>
          map_of f (resolve (cwd e)
            [''.dotbuild'', ''engines'', ''firefox-'' @ hd (split CHR ''b'' version)]) = None \<and>
          map_of f (ENGINE_DIR e) = None"
        by blast
      from sent show ?thesis
        by (simp add: download_run [OF Inr clear] split: if_splits)
    qed
  qed
  with url show "url = ''https://archive.mozilla.org/pub/firefox/releases/'' @ version @
            ''/source/firefox-'' @ version @ ''.source.tar.xz''"
    by simp
qed


theorem download_url_witness:
  "source_url ''115.0'' =
     ''https://archive.mozilla.org/pub/firefox/releases/115.0/source/firefox-115.0.source.tar.xz'' \<and>
   Download ''https://archive.mozilla.org/pub/firefox/releases/115.0/source/firefox-115.0.source.tar.xz''
       [''home'', ''dev'', ''browser'', ''.dotbuild'', ''engines'', ''firefox-115.0.source.tar.xz'']
     \<in> set (drop (length (out fresh_world))
          (out (snd (downloadFirefoxSource example_env ''115.0'' fresh_world))))"
  using download_url [of "''115.0''" fresh_world example_env]
  by (simp add: downloadFirefoxSource_def source_url_def action_defs ensureDirSync_def
      downloadFileToLocation_def writeFileSync_def resolve_def show_path_def
      example_env_def fresh_world_def project_dirs_def str_includes_def
      sublist_Cons_right Let_def)

section \<open>Unpacking\<close>

text \<open>
  An engine directory with entries survives the preparation: \<open>rmdirSync\<close> raises, the
  empty \<open>catch\<close> swallows that, and \<open>ensureDirSync\<close> finds the directory there.
\<close>

lemma unpack_prepare_keeps_entries:
  assumes "map_of (fs w) (ENGINE_DIR e) = Some Dir" and "has_entries (fs w) (ENGINE_DIR e)"
    and "unpack_prepare e w = (Inr (), w')"
    and "map_of (fs w) q = Some n"
  shows "map_of (fs w') q = Some n"
  using assms
  by (auto simp: unpack_prepare_def action_defs rmdirSync_def ensureDirSync_def
      split: sum.splits dest: map_of_mkdirs)

lemma set_mkdirs:
  "mkdirs qs f = Inr f' \<Longrightarrow> set f' \<subseteq> set f \<union> (\<lambda>q. (q, Dir)) ` set qs"
proof (induction qs arbitrary: f)
  case Nil
  then show ?case by simp
next
  case (Cons a qs)
  then show ?case
    by (fastforce split: option.splits node.splits)
qed

lemma mkdirs_creates:
  "mkdirs qs f = Inr f' \<Longrightarrow> q \<in> set qs \<Longrightarrow> map_of f' q = Some Dir"
proof (induction qs arbitrary: f)
  case Nil
  then show ?case by simp
next
  case (Cons a qs)
  show ?case
  proof (cases "map_of f a")
    case None
    with Cons.prems have run: "mkdirs qs (f @ [(a, Dir)]) = Inr f'" by simp
    show ?thesis
    proof (cases "q = a")
      case True
      with None have "map_of (f @ [(a, Dir)]) q = Some Dir" by (simp add: map_add_Some_iff)
      with run show ?thesis by (rule map_of_mkdirs)
    next
      case False
      with Cons.prems have "q \<in> set qs" by simp
      with run show ?thesis by (rule Cons.IH)
    qed
  next
    case (Some n)
    with Cons.prems have dir: "n = Dir" and run: "mkdirs qs f = Inr f'"
      by (auto split: node.splits)
    show ?thesis
    proof (cases "q = a")
      case True
      with Some dir have "map_of f q = Some Dir" by simp
      with run show ?thesis by (rule map_of_mkdirs)
    next
      case False
      with Cons.prems have "q \<in> set qs" by simp
      with run show ?thesis by (rule Cons.IH)
    qed
  qed
qed

lemma self_in_tl_prefixes: "p \<noteq> [] \<Longrightarrow> p \<in> set (tl (prefixes p))"
  by (cases p) (simp_all add: in_set_prefixes)

text \<open>
  Without entries below the engine directory the preparation does what it is there for:
  the directory is there afterwards, and it is empty.
\<close>

lemma unpack_prepare_empty:
  assumes root: "ENGINE_DIR e \<noteq> []" and empty: "\<not> has_entries (fs w) (ENGINE_DIR e)"
    and run: "unpack_prepare e w = (Inr (), w')"
  shows "map_of (fs w') (ENGINE_DIR e) = Some Dir \<and> \<not> has_entries (fs w') (ENGINE_DIR e)"
proof -
  from run obtain f where made: "mkdirs (tl (prefixes (ENGINE_DIR e))) f = Inr (fs w')"
    and sub: "set f \<subseteq> set (fs w)"
    by (auto simp: unpack_prepare_def action_defs rmdirSync_def ensureDirSync_def
        AList.delete_eq split: sum.splits option.splits node.splits if_splits)
  have "map_of (fs w') (ENGINE_DIR e) = Some Dir"
    using made self_in_tl_prefixes [OF root] by (rule mkdirs_creates)
  moreover have "\<not> has_entries (fs w') (ENGINE_DIR e)"
  proof
    assume "has_entries (fs w') (ENGINE_DIR e)"
    then obtain q n where in_fs: "(q, n) \<in> set (fs w')" and below: "strict_prefix (ENGINE_DIR e) q"
      by (auto simp: has_entries_def list_ex_iff)
    from set_mkdirs [OF made] in_fs
    consider "(q, n) \<in> set f" | "q \<in> set (tl (prefixes (ENGINE_DIR e)))"
      by auto
    then show False
    proof cases
      case 1
      with sub below empty show False
        by (auto simp: has_entries_def list_ex_iff)
    next
      case 2
      then have "q \<in> set (prefixes (ENGINE_DIR e))"
        by (rule list.set_sel(2) [rotated]) simp
      then have "prefix q (ENGINE_DIR e)" by (simp add: in_set_prefixes)
      with below show False by (auto simp: strict_prefix_def)
    qed
  qed
  ultimately show ?thesis ..
qed

text \<open>
  C6, on the failing input. The engine directory holds \<open>old.txt\<close>: the preparation
  leaves the file system as it was, and the file is still there after \<open>tar\<close> has run.
\<close>

theorem unpack_keeps_stale_files:
  "unpack_prepare example_env used_world =
     (Inr (), used_world\<lparr>out := [SpinnerStart], initProgressText := ''Unpacking Firefox...''\<rparr>) \<and>
   map_of (fs (snd (unpackFirefoxSource example_env ''firefox-115.0.source.tar.xz'' used_world)))
     [''home'', ''dev'', ''browser'', ''engine'', ''old.txt''] = Some (File ''stale'')"
  by (simp add: unpackFirefoxSource_def run_tar_def tar_args_def unpack_prepare_def action_defs
      rmdirSync_def ensureDirSync_def has_entries_def example_env_def used_world_def
      fresh_world_def project_dirs_def onData_def onLine_def trim_def is_space_def shift_def
      resolve_def show_path_def Let_def)

section \<open>Applying the configuration\<close>

text \<open>
  C4, as the code has it. When \<open>git rev-parse HEAD\<close> fails, \<open>applyConfig\<close> prints
  four warnings in a row (the git expectation, the advice to migrate, the hint, and the
  \<open>git init\<close> command line), raises the same failure again, and leaves the file
  system as it was: no configuration is written.
\<close>

theorem applyConfig_git_failure:
  assumes "git_rev_parse e = Inl err"
  shows "applyConfig e os arch w =
    (Inl err,
     w\<lparr>out := out w @
       [Info ''Applying mozconfig...'',
        Spawn ''git'' [''rev-parse'', ''HEAD''],
        Warning ''Melon expects that you are building your browser with git as your version control'',
        Warning ''If you are using some other version control system, please migrate to git'',
        Warning ''Otherwise, you can setup git in this folder by running:'',
        Warning ''   |git init|'']\<rparr>)"
  using assms by (simp add: applyConfig_def action_defs execa_git_def)

theorem applyConfig_git_failure_witness:
  "git_rev_parse failing_env = Inl (CommandFailed ''git rev-parse HEAD'') \<and>
   fst (applyConfig failing_env ''linux'' ''x86_64'' fresh_world) =
     Inl (CommandFailed ''git rev-parse HEAD'') \<and>
   fs (snd (applyConfig failing_env ''linux'' ''x86_64'' fresh_world)) = fs fresh_world \<and>
   warnings (out (snd (applyConfig failing_env ''linux'' ''x86_64'' fresh_world))) =
     [''Melon expects that you are building your browser with git as your version control'',
      ''If you are using some other version control system, please migrate to git'',
      ''Otherwise, you can setup git in this folder by running:'',
      ''   |git init|'']"
  using applyConfig_git_failure
    [of failing_env "CommandFailed ''git rev-parse HEAD''" "''linux''" "''x86_64''" fresh_world]
  by (simp add: failing_env_def example_env_def fresh_world_def)

text \<open>C4 as the specification words it fails: the warnings are four, not three.\<close>

theorem applyConfig_three_warnings_counterexample:
  "length (warnings (out (snd (applyConfig failing_env ''linux'' ''x86_64'' fresh_world)))) \<noteq> 3"
  by (simp add: applyConfig_def action_defs execa_git_def failing_env_def example_env_def
      fresh_world_def)

lemma echo_option_run:
  "echo_option ln w =
     (Inr (), w\<lparr>out := out w @
        (if prefix ''mk'' ln \<or> prefix ''ac'' ln \<or> prefix ''export'' ln
         then [Info ([CHR 0x09] @
            replace_first ''export '' []
              (replace_first ''ac_add_options '' []
                 (replace_first ''mk_add_options '' [] ln)))]
         else [])\<rparr>)"
  by (simp add: echo_option_def action_defs)

lemma for_each_echo:
  "\<exists>said. for_each echo_option lns w = (Inr (), w\<lparr>out := out w @ said\<rparr>)"
proof (induction lns arbitrary: w)
  case Nil
  have "w = w\<lparr>out := out w @ []\<rparr>" by simp
  then show ?case unfolding for_each.simps return_def by blast
next
  case (Cons ln lns)
  obtain first where first: "echo_option ln w = (Inr (), w\<lparr>out := out w @ first\<rparr>)"
    using echo_option_run by blast
  from Cons [of "w\<lparr>out := out w @ first\<rparr>"] obtain more where
    "for_each echo_option lns (w\<lparr>out := out w @ first\<rparr>) =
       (Inr (), w\<lparr>out := out w @ first @ more\<rparr>)"
    by auto
  with first show ?case
    by (auto simp: seq_def bind_def)
qed


lemma fst_for_each_echo: "fst (for_each echo_option lns w) = Inr ()"
  using for_each_echo [of lns w] by auto

lemma fs_for_each_echo: "fs (snd (for_each echo_option lns w)) = fs w"
  using for_each_echo [of lns w] by auto

lemma applyConfig_fs:
  assumes ok: "fst (applyConfig e os arch w) = Inr ()" and git: "git_rev_parse e = Inr stdout"
  shows "fs (snd (applyConfig e os arch w)) =
    (let options = templateOptions e
           (if map_of (fs w) (resolve (ENGINE_DIR e) [''branding'', ''melon'']) \<noteq> None
            then ''branding/melon'' else ''branding/unofficial'') (trim stdout)
     in AList.update (resolve (ENGINE_DIR e) [''mozconfig''])
       (File
         (''# This file is automatically generated. You should only modify this if you know what you are doing!'' @
          ''\<newline>\<newline>'' @
          stringTemplate (content (fs w) (resolve (CONFIGS_DIR e) [''common'', ''mozconfig''])) options @
          ''\<newline>\<newline>'' @
          stringTemplate (content (fs w) (resolve (CONFIGS_DIR e)
             [os, if arch = ''i686'' then ''mozconfig-i686'' else ''mozconfig''])) options @
          ''\<newline>\<newline>'' @
          stringTemplate (content (fs w) (resolve (cwd e) [''mozconfig''])) options @
          ''\<newline>\<newline>'' @
          ''# Internally defined by melon''))
       (fs w))"
proof -
  let ?common = "resolve (CONFIGS_DIR e) [''common'', ''mozconfig'']"
  let ?specific = "resolve (CONFIGS_DIR e)
             [os, if arch = ''i686'' then ''mozconfig-i686'' else ''mozconfig'']"
  let ?custom = "resolve (cwd e) [''mozconfig'']"
  let ?target = "resolve (ENGINE_DIR e) [''mozconfig'']"
  note defs = applyConfig_def action_defs execa_git_def readFileSync_def writeFileSync_def
    mergedConfig_def content_def Let_def fst_for_each_echo fs_for_each_echo
  have common: "\<exists>c. map_of (fs w) ?common = Some (File c)"
  proof (rule ccontr)
    assume "\<not> ?thesis"
    then have "map_of (fs w) ?common = None \<or> map_of (fs w) ?common = Some Dir"
      by (metis node.exhaust option.exhaust)
    with ok git show False
      by (auto simp: defs simp del: for_each.simps split.simps)
  qed
  then obtain c where c: "map_of (fs w) ?common = Some (File c)" ..
  have specific: "\<exists>s. map_of (fs w) ?specific = Some (File s)"
  proof (rule ccontr)
    assume "\<not> ?thesis"
    then have "map_of (fs w) ?specific = None \<or> map_of (fs w) ?specific = Some Dir"
      by (metis node.exhaust option.exhaust)
    with ok git c show False
      by (auto simp: defs simp del: for_each.simps split.simps)
  qed
  then obtain s where s: "map_of (fs w) ?specific = Some (File s)" ..
  have custom: "map_of (fs w) ?custom \<noteq> Some Dir"
  proof
    assume "map_of (fs w) ?custom = Some Dir"
    with ok git c s show False
      by (simp add: defs del: for_each.simps split.simps)
  qed
  have parent: "\<not> (butlast ?target \<noteq> [] \<and> map_of (fs w) (butlast ?target) \<noteq> Some Dir)"
  proof
    assume "butlast ?target \<noteq> [] \<and> map_of (fs w) (butlast ?target) \<noteq> Some Dir"
    with ok git c s custom show False
      by (cases "map_of (fs w) ?custom") (auto simp: defs simp del: for_each.simps split.simps split: node.splits)
  qed
  have target: "map_of (fs w) ?target \<noteq> Some Dir"
  proof
    assume "map_of (fs w) ?target = Some Dir"
    with ok git c s custom parent show False
      by (cases "map_of (fs w) ?custom") (auto simp: defs simp del: for_each.simps split.simps split: node.splits)
  qed
  from git c s custom parent target show ?thesis
    by (cases "map_of (fs w) ?custom") (auto simp: defs simp del: for_each.simps split.simps split: node.splits)
qed


text \<open>
  C2. When \<open>applyConfig\<close> returns, the file \<open>mozconfig\<close> in the engine directory
  holds exactly the banner, the rendered common fragment, the rendered fragment of the
  operating system, the rendered user override (empty without an override file) and the
  internal marker line, in this order with an empty line between each two; what the file
  held before is gone, and no other path has changed.
\<close>

theorem applyConfig_writes_merged_config:
  assumes run: "applyConfig e os arch w = (Inr (), w')" and git: "git_rev_parse e = Inr stdout"
  shows
    "(let options = templateOptions e
           (if map_of (fs w) (resolve (ENGINE_DIR e) [''branding'', ''melon'']) \<noteq> None
            then ''branding/melon'' else ''branding/unofficial'') (trim stdout)
      in map_of (fs w') (resolve (ENGINE_DIR e) [''mozconfig'']) =
        Some (File
         (''# This file is automatically generated. You should only modify this if you know what you are doing!'' @
          ''\<newline>\<newline>'' @
          stringTemplate (content (fs w) (resolve (CONFIGS_DIR e) [''common'', ''mozconfig''])) options @
          ''\<newline>\<newline>'' @
          stringTemplate (content (fs w) (resolve (CONFIGS_DIR e)
             [os, if arch = ''i686'' then ''mozconfig-i686'' else ''mozconfig''])) options @
          ''\<newline>\<newline>'' @
          stringTemplate (content (fs w) (resolve (cwd e) [''mozconfig''])) options @
          ''\<newline>\<newline>'' @
          ''# Internally defined by melon''))) \<and>
     (\<forall>p. p \<noteq> resolve (ENGINE_DIR e) [''mozconfig''] \<longrightarrow> map_of (fs w') p = map_of (fs w) p)"
proof -
  from run have "fst (applyConfig e os arch w) = Inr ()" and "w' = snd (applyConfig e os arch w)"
    by simp_all
  with applyConfig_fs [OF _ git, of os arch w] show ?thesis
    by (simp add: Let_def update_conv')
qed

theorem applyConfig_writes_merged_config_witness:
  "git_rev_parse example_env = Inr ''0a1b2c3d\<newline>'' \<and>
   fst (applyConfig example_env ''linux'' ''x86_64'' configured_world) = Inr () \<and>
   map_of (fs configured_world) [''home'', ''dev'', ''browser'', ''engine'', ''mozconfig''] =
     Some (File ''# left by the last build'') \<and>
   map_of (fs (snd (applyConfig example_env ''linux'' ''x86_64'' configured_world)))
       [''home'', ''dev'', ''browser'', ''engine'', ''mozconfig''] =
     Some (File (''# This file is automatically generated. You should only modify this if you know what you are doing!'' @
       ''\<newline>\<newline>ac_add_options --with-app-name=dot'' @
       ''\<newline>\<newline>export MOZ_SOURCE_CHANGESET=0a1b2c3d'' @
       ''\<newline>\<newline>'' @
       ''\<newline>\<newline># Internally defined by melon''))"
proof -
  have git: "git_rev_parse example_env = Inr ''0a1b2c3d\<newline>''"
    by (simp add: example_env_def)
  have ok: "fst (applyConfig example_env ''linux'' ''x86_64'' configured_world) = Inr ()"
    by (simp add: applyConfig_def action_defs execa_git_def readFileSync_def writeFileSync_def
        example_env_def configured_world_def fresh_world_def project_dirs_def resolve_def
        fst_for_each_echo Let_def del: for_each.simps split.simps)
  then have run: "applyConfig example_env ''linux'' ''x86_64'' configured_world =
      (Inr (), snd (applyConfig example_env ''linux'' ''x86_64'' configured_world))"
    by (simp add: prod_eq_iff)
  from applyConfig_writes_merged_config [OF run git] git ok show ?thesis
    by (simp add: example_env_def example_config_def configured_world_def fresh_world_def
        project_dirs_def resolve_def content_def templateOptions_def trim_def is_space_def
        Let_def)
qed

section \<open>Rendering a template\<close>

lemma known_key_cases [case_names empty single pair]:
  assumes "\<And>key. P key []" and "\<And>key c. P key [c]"
    and "\<And>key c d r. P (key @ [c]) (d # r) \<Longrightarrow> P key (c # d # r)"
  shows "P key s"
proof (induction s arbitrary: key)
  case Nil
  show ?case by (rule assms(1))
next
  case (Cons c s)
  show ?case
  proof (cases s)
    case Nil
    then show ?thesis by (simp add: assms(2))
  next
    case (Cons d r)
    with Cons.IH [of "key @ [c]"] show ?thesis by (simp add: assms(3))
  qed
qed

lemma known_key_step:
  "known_key variables key (c # d # r) =
     (if c = CHR ''}'' \<and> d = CHR ''}'' \<and> variables key \<noteq> None
      then Some (the (variables key), r)
      else known_key variables (key @ [c]) (d # r))"
  by (cases "variables key") simp_all

lemma known_key_Some:
  "known_key variables key s = Some (v, rest) \<Longrightarrow>
     \<exists>k. s = k @ ''}}'' @ rest \<and> variables (key @ k) = Some v"
proof (induction key s rule: known_key_cases)
  case (pair key c d r)
  show ?case
  proof (cases "c = CHR ''}'' \<and> d = CHR ''}'' \<and> variables key \<noteq> None")
    case True
    with pair.prems have "c # d # r = [] @ ''}}'' @ rest \<and> variables (key @ []) = Some v"
      by (auto simp: known_key_step simp del: known_key.simps(1))
    then show ?thesis by blast
  next
    case False
    with pair.prems have "known_key variables (key @ [c]) (d # r) = Some (v, rest)"
      by (auto simp: known_key_step simp del: known_key.simps(1) split: if_splits)
    from pair.IH [OF this] obtain k where "d # r = k @ ''}}'' @ rest"
      and "variables ((key @ [c]) @ k) = Some v"
      by blast
    then have "c # d # r = (c # k) @ ''}}'' @ rest \<and> variables (key @ c # k) = Some v"
      by simp
    then show ?thesis by blast
  qed
qed simp_all

lemma known_key_placeholder:
  assumes "variables (key @ k) = Some v"
    and "\<And>k'. prefix (k' @ ''}}'') (k @ ''}}'') \<Longrightarrow> k' \<noteq> k \<Longrightarrow> variables (key @ k') = None"
  shows "known_key variables key (k @ ''}}'' @ rest) = Some (v, rest)"
  using assms
proof (induction k arbitrary: key)
  case Nil
  then show ?case by simp
next
  case (Cons x k)
  obtain d r where shape: "k @ ''}}'' @ rest = d # r"
    by (cases "k @ ''}}'' @ rest") auto
  have first: "variables key = None" if "x = CHR ''}'' \<and> d = CHR ''}''"
  proof -
    from that shape have "prefix ([] @ ''}}'') ((x # k) @ ''}}'')"
      by (cases k) (auto simp: prefix_def)
    from Cons.prems(2) [OF this] show ?thesis by simp
  qed
  have "known_key variables (key @ [x]) (k @ ''}}'' @ rest) = Some (v, rest)"
  proof (rule Cons.IH)
    show "variables ((key @ [x]) @ k) = Some v"
      using Cons.prems(1) by simp
    fix k'
    assume "prefix (k' @ ''}}'') (k @ ''}}'')" and "k' \<noteq> k"
    then have "prefix ((x # k') @ ''}}'') ((x # k) @ ''}}'')" and "x # k' \<noteq> x # k"
      by simp_all
    from Cons.prems(2) [OF this] show "variables ((key @ [x]) @ k') = None"
      by simp
  qed
  with first shape show ?case
    by (auto simp: known_key_step simp del: known_key.simps(1))
qed

lemma known_key_append:
  "known_key variables key r = Some (v, rest) \<Longrightarrow>
     known_key variables key (r @ x) = Some (v, rest @ x)"
proof (induction key r rule: known_key_cases)
  case (pair key c d r)
  then show ?case
    by (auto simp: known_key_step simp del: known_key.simps(1) split: if_splits)
qed simp_all

lemma known_key_opened:
  assumes "\<And>k. CHR ''{'' \<in> set k \<Longrightarrow> variables k = None"
  shows "CHR ''{'' \<in> set key \<Longrightarrow> known_key variables key s = None"
proof (induction key s rule: known_key_cases)
  case (pair key c d r)
  with assms [of key] show ?case
    by (simp add: known_key_step del: known_key.simps(1))
qed simp_all

lemma known_key_None_append:
  assumes "\<And>k. CHR ''{'' \<in> set k \<Longrightarrow> variables k = None"
  shows "known_key variables key r = None \<Longrightarrow> known_key variables key (r @ CHR ''{'' # y) = None"
proof (induction key r rule: known_key_cases)
  case (empty key)
  have "known_key variables (key @ ''{'') s = None" for s
    by (intro known_key_opened) (simp_all add: assms)
  then show ?case
    by (cases y) (simp_all add: known_key_step del: known_key.simps(1))
next
  case (single key c)
  have "known_key variables ((key @ [c]) @ ''{'') s = None" for s
    by (intro known_key_opened) (simp_all add: assms)
  then show ?case
    by (cases y) (simp_all add: known_key_step del: known_key.simps(1))
next
  case (pair key c d r)
  then show ?case
    by (auto simp: known_key_step simp del: known_key.simps(1) split: if_splits)
qed


lemma stringTemplate_copy:
  assumes "\<not> prefix ''{{'' (c # cs)"
  shows "stringTemplate (c # cs) variables = c # stringTemplate cs variables"
  by (subst stringTemplate.simps) (simp only: assms if_False)

lemma stringTemplate_unknown:
  assumes "prefix ''{{'' (c # cs)" and "known_key variables [] (drop 2 (c # cs)) = None"
  shows "stringTemplate (c # cs) variables = c # stringTemplate cs variables"
  by (subst stringTemplate.simps) (simp only: assms if_True option.case)

lemma stringTemplate_known:
  assumes "prefix ''{{'' (c # cs)" and "known_key variables [] (drop 2 (c # cs)) = Some (v, rest)"
  shows "stringTemplate (c # cs) variables = v @ stringTemplate rest variables"
  by (subst stringTemplate.simps) (simp only: assms if_True option.case prod.case)

lemma stringTemplate_unchanged:
  "(\<And>k v. variables k = Some v \<Longrightarrow> \<not> str_includes template (''{{'' @ k @ ''}}'')) \<Longrightarrow>
     stringTemplate template variables = template"
proof (induction template variables rule: stringTemplate.induct)
  case (1 variables)
  show ?case by simp
next
  case (2 c cs variables)
  have below: "\<not> str_includes cs (''{{'' @ k @ ''}}'')" if "variables k = Some v" for k v
    using "2.prems" [OF that] by (simp add: str_includes_def sublist_Cons_right)
  show ?case
  proof (cases "prefix ''{{'' (c # cs)")
    case False
    from "2.IH"(3) [OF False below] show ?thesis
      by (simp only: stringTemplate_copy [OF False])
  next
    case True
    show ?thesis
    proof (cases "known_key variables [] (drop 2 (c # cs))")
      case None
      from "2.IH"(1) [OF True None below] show ?thesis
        by (simp only: stringTemplate_unknown [OF True None])
    next
      case (Some found)
      obtain v rest where found: "found = (v, rest)" by (cases found)
      from True obtain r where r: "c # cs = ''{{'' @ r"
        by (auto simp: prefix_def)
      then have "drop 2 (c # cs) = r" by simp
      with Some found obtain k where "r = k @ ''}}'' @ rest" and known: "variables k = Some v"
        by (auto dest: known_key_Some)
      with r have "c # cs = [] @ (''{{'' @ k @ ''}}'') @ rest"
        by simp
      then have "str_includes (c # cs) (''{{'' @ k @ ''}}'')"
        unfolding str_includes_def sublist_def by blast
      with "2.prems" [OF known] show ?thesis by simp
    qed
  qed
qed

lemma stringTemplate_placeholder:
  assumes "variables key = Some v"
    and "\<And>k. prefix (k @ ''}}'') (key @ ''}}'') \<Longrightarrow> k \<noteq> key \<Longrightarrow> variables k = None"
  shows "stringTemplate (''{{'' @ key @ ''}}'' @ rest) variables = v @ stringTemplate rest variables"
proof -
  have "known_key variables [] (key @ ''}}'' @ rest) = Some (v, rest)"
    using assms by (intro known_key_placeholder) simp_all
  then have "known_key variables [] (drop 2 (CHR ''{'' # CHR ''{'' # key @ ''}}'' @ rest)) =
      Some (v, rest)"
    by simp
  from stringTemplate_known [of "CHR ''{''" "CHR ''{'' # key @ ''}}'' @ rest" variables v rest,
      OF _ this]
  show ?thesis by simp
qed

text \<open>
  Scanning the text before a \<open>{{\<close> never reaches across it, as long as no key of the
  mapping has a \<open>{\<close> in it.
\<close>

lemma stringTemplate_before:
  assumes keys: "\<And>k. CHR ''{'' \<in> set k \<Longrightarrow> variables k = None"
  shows "stringTemplate (before @ CHR ''{'' # CHR ''{'' # x) variables =
    stringTemplate before variables @ stringTemplate (CHR ''{'' # CHR ''{'' # x) variables"
proof (induction before rule: length_induct)
  case (1 before)
  let ?X = "CHR ''{'' # CHR ''{'' # x"
  show ?case
  proof (cases before)
    case Nil
    then show ?thesis by simp
  next
    case (Cons c cs)
    have tail: "stringTemplate (cs @ ?X) variables =
        stringTemplate cs variables @ stringTemplate ?X variables"
      using 1 Cons by simp
    show ?thesis
    proof (cases "prefix ''{{'' (c # cs @ ?X)")
      case False
      then have "\<not> prefix ''{{'' (c # cs)"
        by (auto simp: prefix_def)
      from stringTemplate_copy [OF False] stringTemplate_copy [OF this] tail Cons
      show ?thesis by simp
    next
      case True
      show ?thesis
      proof (cases cs)
        case Nil
        have "known_key variables [] (CHR ''{'' # x) = None"
          using known_key_None_append [where variables = variables and key = "[]" and r = "[]" and y = x]
          by (simp add: keys)
        then have "known_key variables [] (drop 2 (c # cs @ ?X)) = None"
          using Nil by simp
        from stringTemplate_unknown [OF True this]
        have "stringTemplate (c # cs @ ?X) variables = c # stringTemplate (cs @ ?X) variables" .
        moreover have "stringTemplate (c # cs) variables = [c]"
          using Nil by (simp add: stringTemplate_copy)
        ultimately show ?thesis
          using Cons Nil by simp
      next
        case (Cons d r)
        with True have open_pre: "prefix ''{{'' (c # cs)" by auto
        have drop_full: "drop 2 (c # cs @ ?X) = r @ ?X" and drop_pre: "drop 2 (c # cs) = r"
          using Cons by simp_all
        show ?thesis
        proof (cases "known_key variables [] r")
          case None
          then have "known_key variables [] (r @ ?X) = None"
            by (intro known_key_None_append) (simp_all add: keys)
          with drop_full have "known_key variables [] (drop 2 (c # cs @ ?X)) = None"
            by simp
          from stringTemplate_unknown [OF True this]
          have "stringTemplate (c # cs @ ?X) variables = c # stringTemplate (cs @ ?X) variables" .
          moreover from None drop_pre have "known_key variables [] (drop 2 (c # cs)) = None"
            by simp
          from stringTemplate_unknown [OF open_pre this]
          have "stringTemplate (c # cs) variables = c # stringTemplate cs variables" .
          ultimately show ?thesis
            using tail \<open>before = c # cs\<close> by simp
        next
          case (Some found)
          obtain v rest where found: "found = (v, rest)" by (cases found)
          with Some drop_pre have close_pre: "known_key variables [] (drop 2 (c # cs)) = Some (v, rest)"
            by simp
          from Some found drop_full
          have close_full: "known_key variables [] (drop 2 (c # cs @ ?X)) = Some (v, rest @ ?X)"
            by (simp add: known_key_append)
          from Some found have "length rest < length r"
            by (auto dest: known_key_shorter)
          then have "length rest < length before"
            using \<open>before = c # cs\<close> Cons by simp
          with 1 have "stringTemplate (rest @ ?X) variables =
              stringTemplate rest variables @ stringTemplate ?X variables"
            by blast
          with stringTemplate_known [OF open_pre close_pre]
            stringTemplate_known [OF True close_full] \<open>before = c # cs\<close>
          show ?thesis by simp
        qed
      qed
    qed
  qed
qed

text \<open>
  No renderer at all replaces every placeholder of every mapping and keeps the rest: a
  placeholder can lie inside another.
\<close>

lemma no_renderer_for_overlapping_placeholders:
  "\<not> (\<exists>render :: string \<Rightarrow> (string \<rightharpoonup> string) \<Rightarrow> string.
      (\<forall>variables before key v rest. variables key = Some v \<longrightarrow>
         render (before @ ''{{'' @ key @ ''}}'' @ rest) variables =
           render before variables @ v @ render rest variables) \<and>
      (\<forall>variables template.
         (\<forall>k \<in> dom variables. \<not> str_includes template (''{{'' @ k @ ''}}'')) \<longrightarrow>
           render template variables = template))"
proof
  assume "\<exists>render :: string \<Rightarrow> (string \<rightharpoonup> string) \<Rightarrow> string.
      (\<forall>variables before key v rest. variables key = Some v \<longrightarrow>
         render (before @ ''{{'' @ key @ ''}}'' @ rest) variables =
           render before variables @ v @ render rest variables) \<and>
      (\<forall>variables template.
         (\<forall>k \<in> dom variables. \<not> str_includes template (''{{'' @ k @ ''}}'')) \<longrightarrow>
           render template variables = template)"
  then obtain render :: "string \<Rightarrow> (string \<rightharpoonup> string) \<Rightarrow> string"
    where replaces: "\<And>variables before key v rest. variables key = Some v \<Longrightarrow>
         render (before @ ''{{'' @ key @ ''}}'' @ rest) variables =
           render before variables @ v @ render rest variables"
      and keeps: "\<And>variables template.
         (\<forall>k \<in> dom variables. \<not> str_includes template (''{{'' @ k @ ''}}'')) \<Longrightarrow>
           render template variables = template"
    by blast
  let ?m = "[''a'' \<mapsto> ''A'', ''x{{a'' \<mapsto> ''B'']"
  have empty: "render [] ?m = []"
    by (rule keeps) (simp add: str_includes_def)
  have start: "render ''{{x'' ?m = ''{{x''"
    by (rule keeps) (simp add: str_includes_def sublist_Cons_right)
  have "render ([] @ ''{{'' @ ''x{{a'' @ ''}}'' @ []) ?m = render [] ?m @ ''B'' @ render [] ?m"
    by (rule replaces) simp
  moreover
  have "render (''{{x'' @ ''{{'' @ ''a'' @ ''}}'' @ []) ?m = render ''{{x'' ?m @ ''A'' @ render [] ?m"
    by (rule replaces) simp
  ultimately show False
    using empty start by simp
qed

text \<open>
  C5, as far as it can hold. Where a key of the mapping stands between \<open>{{\<close> and
  \<open>}}\<close>, the rendering is the rendering of the text before it, the key's value, and the
  rendering of the text after it, so that every such placeholder is replaced and its
  value is not scanned again; this needs that placeholders of known keys cannot lie
  inside one another: no key of the mapping has a \<open>{\<close> in it, and no other key of the
  mapping, followed by \<open>}}\<close>, begins the key followed by \<open>}}\<close>. A template in which no
  placeholder of a known key occurs is returned as it is, so placeholders of absent keys
  stay verbatim; one instance is \<open>{{missing}}\<close> under the empty mapping. The renderer
  is a total function: its termination is proved with its definition.
\<close>

theorem stringTemplate_renders:
  "(variables key = Some v \<and> (\<forall>k \<in> dom variables. CHR ''{'' \<notin> set k) \<and>
    (\<forall>k \<in> dom variables. prefix (k @ ''}}'') (key @ ''}}'') \<longrightarrow> k = key) \<longrightarrow>
      stringTemplate (before @ ''{{'' @ key @ ''}}'' @ rest) variables =
        stringTemplate before variables @ v @ stringTemplate rest variables) \<and>
   ((\<forall>k \<in> dom variables. \<not> str_includes template (''{{'' @ k @ ''}}'')) \<longrightarrow>
      stringTemplate template variables = template) \<and>
   stringTemplate ''{{missing}}'' Map.empty = ''{{missing}}''"
proof (intro conjI impI)
  assume known: "variables key = Some v \<and> (\<forall>k \<in> dom variables. CHR ''{'' \<notin> set k) \<and>
    (\<forall>k \<in> dom variables. prefix (k @ ''}}'') (key @ ''}}'') \<longrightarrow> k = key)"
  then have keys: "\<And>k. CHR ''{'' \<in> set k \<Longrightarrow> variables k = None"
    by (meson domIff)
  have "stringTemplate (before @ CHR ''{'' # CHR ''{'' # key @ ''}}'' @ rest) variables =
      stringTemplate before variables @
      stringTemplate (CHR ''{'' # CHR ''{'' # key @ ''}}'' @ rest) variables"
    using keys by (rule stringTemplate_before)
  moreover have "stringTemplate (''{{'' @ key @ ''}}'' @ rest) variables =
      v @ stringTemplate rest variables"
  proof (rule stringTemplate_placeholder)
    show "variables key = Some v" using known by simp
    fix k
    assume "prefix (k @ ''}}'') (key @ ''}}'')" and "k \<noteq> key"
    with known show "variables k = None"
      by (meson domIff)
  qed
  ultimately show "stringTemplate (before @ ''{{'' @ key @ ''}}'' @ rest) variables =
        stringTemplate before variables @ v @ stringTemplate rest variables"
    by simp
next
  assume "\<forall>k \<in> dom variables. \<not> str_includes template (''{{'' @ k @ ''}}'')"
  then have "\<And>k v. variables k = Some v \<Longrightarrow> \<not> str_includes template (''{{'' @ k @ ''}}'')"
    by blast
  then show "stringTemplate template variables = template"
    by (rule stringTemplate_unchanged)
next
  show "stringTemplate ''{{missing}}'' Map.empty = ''{{missing}}''"
    by (rule stringTemplate_unchanged) simp
qed

theorem stringTemplate_renders_witness:
  "[''name'' \<mapsto> ''Dot''] ''name'' = Some ''Dot'' \<and>
   stringTemplate ''Hello {{who}}, this is {{name}}.'' [''name'' \<mapsto> ''Dot''] =
     ''Hello {{who}}, this is Dot.'' \<and>
   stringTemplate ''Hello {{who}}.'' [''name'' \<mapsto> ''Dot''] = ''Hello {{who}}.''"
proof -
  have left: "stringTemplate ''Hello {{who}}, this is '' [''name'' \<mapsto> ''Dot''] =
      ''Hello {{who}}, this is ''"
    using stringTemplate_renders
      [of "[''name'' \<mapsto> ''Dot'']" "''name''" "''Dot''" "[]" "[]" "''Hello {{who}}, this is ''"]
    by (simp add: dom_def str_includes_def sublist_Cons_right)
  have right: "stringTemplate ''.'' [''name'' \<mapsto> ''Dot''] = ''.''"
    by simp
  have "stringTemplate (''Hello {{who}}, this is '' @ ''{{'' @ ''name'' @ ''}}'' @ ''.'')
      [''name'' \<mapsto> ''Dot''] =
    stringTemplate ''Hello {{who}}, this is '' [''name'' \<mapsto> ''Dot''] @ ''Dot'' @
    stringTemplate ''.'' [''name'' \<mapsto> ''Dot'']"
    using stringTemplate_renders
      [of "[''name'' \<mapsto> ''Dot'']" "''name''" "''Dot''" "''Hello {{who}}, this is ''" "''.''" "[]"]
    by (simp add: dom_def)
  with left right have whole:
    "stringTemplate ''Hello {{who}}, this is {{name}}.'' [''name'' \<mapsto> ''Dot''] =
      ''Hello {{who}}, this is Dot.''"
    by simp
  have other: "stringTemplate ''Hello {{who}}.'' [''name'' \<mapsto> ''Dot''] = ''Hello {{who}}.''"
    using stringTemplate_renders
      [of "[''name'' \<mapsto> ''Dot'']" "''name''" "''Dot''" "[]" "[]" "''Hello {{who}}.''"]
    by (simp add: dom_def str_includes_def sublist_Cons_right)
  from whole other show ?thesis by simp
qed

text \<open>
  C5 as the specification words it, for every mapping, fails: with the keys \<open>a\<close> and
  \<open>x{{a\<close> the template \<open>{{x{{a}}\<close> is one placeholder with another inside, the outer
  one is replaced, and the value of \<open>a\<close> appears nowhere.
\<close>

theorem stringTemplate_overlap_counterexample:
  "[''a'' \<mapsto> ''A'', ''x{{a'' \<mapsto> ''B''] ''a'' = Some ''A'' \<and>
   stringTemplate ''{{x{{a}}'' [''a'' \<mapsto> ''A'', ''x{{a'' \<mapsto> ''B''] = ''B'' \<and>
   stringTemplate (''{{x'' @ ''{{'' @ ''a'' @ ''}}'' @ []) [''a'' \<mapsto> ''A'', ''x{{a'' \<mapsto> ''B''] \<noteq>
     stringTemplate ''{{x'' [''a'' \<mapsto> ''A'', ''x{{a'' \<mapsto> ''B''] @ ''A'' @
     stringTemplate [] [''a'' \<mapsto> ''A'', ''x{{a'' \<mapsto> ''B'']"
  by simp


end
